theory Spec2Isabelle
  imports Main "HOL-Library.Sublist"
begin

section \<open>Python values the service works with\<close>

text \<open>
  The event finder is two Python modules: \<^verbatim>\<open>gemini_service.py\<close> builds a prompt and
  interprets the answer of the hosted model, \<^verbatim>\<open>main.py\<close> wraps that in the HTTP
  handler. Python integers are \<^typ>\<open>int\<close>, Python strings are \<^typ>\<open>string\<close>, and
  \<^verbatim>\<open>sub in s\<close> is \<^const>\<open>sublist\<close>. A raise is the left injection of a sum type.
  The \<^verbatim>\<open>print\<close> calls write diagnostics to standard output, which nothing in the
  program reads back; they are left out.
\<close>

subsection \<open>Exceptions\<close>

text \<open>
  A value of type \<open>exn\<close> is an instance of Python's \<^verbatim>\<open>Exception\<close>: its class, as far
  as the program tells classes apart, and \<^verbatim>\<open>str(e)\<close>, which is what an f-string renders.
\<close>

datatype exn_class = AttributeError | OverflowError | PlainException | OtherException

datatype exn = Exn (exn_class: exn_class) (exn_str: string)

subsection \<open>Decimal rendering of integers\<close>

definition digit_char :: "nat \<Rightarrow> char" where
  "digit_char n = ''0123456789'' ! n"

fun str_nat :: "nat \<Rightarrow> string" where
  "str_nat n = (if n < 10 then [digit_char n] else str_nat (n div 10) @ [digit_char (n mod 10)])"

declare str_nat.simps [simp del]

definition str_int :: "int \<Rightarrow> string" where
  \<comment> \<open>\<^verbatim>\<open>str(i)\<close>, also what \<^verbatim>\<open>f"{i}"\<close> renders\<close>
  "str_int i = (if i < 0 then CHR ''-'' # str_nat (nat (- i)) else str_nat (nat i))"

subsection \<open>Calendar arithmetic of \<^verbatim>\<open>datetime.date\<close>\<close>

text \<open>
  \<^verbatim>\<open>today + datetime.timedelta(days=n)\<close> goes through the proleptic Gregorian ordinal
  of the date. The functions below are those of the standard library's \<^verbatim>\<open>datetime\<close>
  module, with its names less the leading underscore.
\<close>

definition MAXORDINAL :: int where
  "MAXORDINAL = 3652059"

definition DAYS_IN_MONTH :: "int list" where
  "DAYS_IN_MONTH = [-1, 31, 28, 31, 30, 31, 30, 31, 31, 30, 31, 30, 31]"

fun dbm_loop :: "int \<Rightarrow> int list \<Rightarrow> int list" where
  "dbm_loop dbm [] = []"
| "dbm_loop dbm (dim # rest) = dbm # dbm_loop (dbm + dim) rest"

definition DAYS_BEFORE_MONTH :: "int list" where
  "DAYS_BEFORE_MONTH = [-1] @ dbm_loop 0 (tl DAYS_IN_MONTH)"

definition is_leap :: "int \<Rightarrow> bool" where
  "is_leap year \<longleftrightarrow> year mod 4 = 0 \<and> (year mod 100 \<noteq> 0 \<or> year mod 400 = 0)"

definition days_before_year :: "int \<Rightarrow> int" where
  "days_before_year year = (let y = year - 1 in y * 365 + y div 4 - y div 100 + y div 400)"

definition days_in_month :: "int \<Rightarrow> int \<Rightarrow> int" where
  "days_in_month year month =
     (if month = 2 \<and> is_leap year then 29 else DAYS_IN_MONTH ! nat month)"

definition days_before_month :: "int \<Rightarrow> int \<Rightarrow> int" where
  "days_before_month year month =
     DAYS_BEFORE_MONTH ! nat month + (if month > 2 \<and> is_leap year then 1 else 0)"

definition ymd2ord :: "int \<Rightarrow> int \<Rightarrow> int \<Rightarrow> int" where
  "ymd2ord year month day = days_before_year year + days_before_month year month + day"

definition DI400Y :: int where
  "DI400Y = days_before_year 401"

definition DI100Y :: int where
  "DI100Y = days_before_year 101"

definition DI4Y :: int where
  "DI4Y = days_before_year 5"

definition ord2ymd :: "int \<Rightarrow> int \<times> int \<times> int" where
  "ord2ymd n0 =
     (let n = n0 - 1;
          n400 = n div DI400Y; n = n mod DI400Y;
          year = n400 * 400 + 1;
          n100 = n div DI100Y; n = n mod DI100Y;
          n4 = n div DI4Y; n = n mod DI4Y;
          n1 = n div 365; n = n mod 365;
          year = year + (n100 * 100 + n4 * 4 + n1)
      in if n1 = 4 \<or> n100 = 4 then (year - 1, 12, 31)
         else
           let leapyear = (n1 = 3 \<and> (n4 \<noteq> 24 \<or> n100 = 3));
               month = (n + 50) div 32;
               preceding = DAYS_BEFORE_MONTH ! nat month + (if month > 2 \<and> leapyear then 1 else 0)
           in if preceding > n
              then
                let month = month - 1;
                    preceding = preceding -
                      (DAYS_IN_MONTH ! nat month + (if month = 2 \<and> leapyear then 1 else 0))
                in (year, month, n - preceding + 1)
              else (year, month, n - preceding + 1))"

record date =
  year :: int
  month :: int
  day :: int

definition valid_date :: "date \<Rightarrow> bool" where
  \<comment> \<open>what the constructor of \<^verbatim>\<open>date\<close> checks: every \<^verbatim>\<open>date\<close> object satisfies it\<close>
  "valid_date d \<longleftrightarrow>
     1 \<le> year d \<and> year d \<le> 9999 \<and> 1 \<le> month d \<and> month d \<le> 12 \<and>
     1 \<le> day d \<and> day d \<le> days_in_month (year d) (month d)"

definition toordinal :: "date \<Rightarrow> int" where
  "toordinal d = ymd2ord (year d) (month d) (day d)"

definition fromordinal :: "int \<Rightarrow> date" where
  "fromordinal n = (case ord2ymd n of (y, m, d) \<Rightarrow> \<lparr>year = y, month = m, day = d\<rparr>)"

definition timedelta :: "int \<Rightarrow> exn + int" where
  \<comment> \<open>\<^verbatim>\<open>datetime.timedelta(days=n)\<close>: the number of days it holds, or the overflow\<close>
  "timedelta days =
     (if days < - 2147483648 \<or> 2147483647 < days
      then Inl (Exn OverflowError ''Python int too large to convert to C int'')
      else if \<bar>days\<bar> > 999999999
      then Inl (Exn OverflowError
                 (''days='' @ str_int days @ ''; must have magnitude <= 999999999''))
      else Inr days)"

definition date_add :: "date \<Rightarrow> int \<Rightarrow> exn + date" where
  \<comment> \<open>\<^verbatim>\<open>date.__add__\<close> with the days of a \<^verbatim>\<open>timedelta\<close>\<close>
  "date_add d delta_days =
     (let ordinal = toordinal d + delta_days
      in if 0 < ordinal \<and> ordinal \<le> MAXORDINAL then Inr (fromordinal ordinal)
         else Inl (Exn OverflowError ''date value out of range''))"

subsection \<open>\<^verbatim>\<open>strftime('%B %d, %Y')\<close>\<close>

definition MONTH_NAMES :: "string list" where
  "MONTH_NAMES = [''January'', ''February'', ''March'', ''April'', ''May'', ''June'', ''July'',
     ''August'', ''September'', ''October'', ''November'', ''December'']"

definition two_digits :: "int \<Rightarrow> string" where
  \<comment> \<open>\<^verbatim>\<open>%d\<close>: the day of the month, zero-padded to two digits\<close>
  "two_digits n = (if n < 10 then CHR ''0'' # str_int n else str_int n)"

definition strftime :: "date \<Rightarrow> string" where
  \<comment> \<open>\<^verbatim>\<open>%B\<close> is the month's full name in the C locale; \<^verbatim>\<open>%Y\<close> is the year in decimal,
      which has four digits from the year 1000 on\<close>
  "strftime d =
     MONTH_NAMES ! nat (month d - 1) @ '' '' @ two_digits (day d) @ '', '' @ str_int (year d)"

section \<open>\<^verbatim>\<open>gemini_service.py\<close>: prompt construction and response handling\<close>

definition split_first :: "char \<Rightarrow> string \<Rightarrow> string" where
  \<comment> \<open>\<^verbatim>\<open>s.split(sep)[0]\<close>: the text before the first separator, all of it when there is none\<close>
  "split_first sep s = takeWhile (\<lambda>c. c \<noteq> sep) s"

text \<open>
  The f-string bound to \<^verbatim>\<open>prompt\<close> in \<^verbatim>\<open>find_local_events_via_search\<close>, character
  by character; \<open>CHR 0x22\<close> is the double quote and \<open>CHR 0x27\<close> the single quote.
\<close>

definition prompt_text :: "string \<Rightarrow> string \<Rightarrow> int \<Rightarrow> string \<Rightarrow> string" where
  "prompt_text location interest_description timeframe_days date_range_str =
     ''\<newline>'' @
     ''    Act as a helpful local event finder assistant for '' @
     location @
     ''. Your task is to find upcoming events based on a user's specific interest.\<newline>'' @
     ''\<newline>'' @
     ''    **Location Focus:** '' @
     location @
     '' (and immediately surrounding areas if relevant).\<newline>'' @
     ''    **Timeframe:** Events happening between '' @
     date_range_str @
     ''.\<newline>'' @
     ''    **User's Interest:** Find events related to '' @
     [CHR 0x22] @
     interest_description @
     [CHR 0x22] @
     ''. Interpret this interest broadly but accurately. For example, if the interest '' @
     ''is 'live acoustic music', look for concerts, open mic nights, coffee shop '' @
     ''performances etc. If it's 'volunteer gardening', look for park cleanups, '' @
     ''community garden work days, planting events etc.\<newline>'' @
     ''\<newline>'' @
     ''    **Instructions:**\<newline>'' @
     ''    1.  **Use your web search capability extensively** to scan local news '' @
     ''sites, city websites ('' @
     split_first (CHR '','') location @
     '' city website), community calendars, park districts, libraries, Facebook '' @
     ''events (if accessible), Eventbrite, and other relevant online sources for '' @
     location @
     ''.\<newline>'' @
     ''    2.  Filter the search results to find events that strongly match the '' @
     ''user's interest: '' @
     [CHR 0x22] @
     interest_description @
     [CHR 0x22] @
     ''.\<newline>'' @
     ''    3.  For each matching event found, extract and list the following information '' @
     ''clearly:\<newline>'' @
     ''        * Event Name/Title\<newline>'' @
     ''        * Date(s) and Time(s) (if available)\<newline>'' @
     ''        * Specific Venue/Location (if available)\<newline>'' @
     ''        * A brief summary or description of the event and why it matches '' @
     ''the interest.\<newline>'' @
     ''        * Source/Link where you found the information (if possible).\<newline>'' @
     ''    4.  Format the results as a clean, easy-to-read list (e.g., using Markdown '' @
     ''bullet points or numbered lists).\<newline>'' @
     ''    5.  If you cannot find any events matching the criteria within the timeframe '' @
     ''after searching, explicitly state that '' @
     [CHR 0x22] @
     ''No specific events matching '' @
     [CHR 0x27] @
     interest_description @
     [CHR 0x27] @
     '' were found in '' @
     location @
     '' for the next '' @
     str_int timeframe_days @
     '' days.'' @
     [CHR 0x22] @
     ''\<newline>'' @
     ''    6.  Do not include events outside the specified timeframe.\<newline>'' @
     ''    7.  Do not invent events. Only list events based on your web search '' @
     ''findings.\<newline>'' @
     ''\<newline>'' @
     ''    Begin search and report your findings.\<newline>'' @
     ''    ''"

text \<open>
  The statements of \<^verbatim>\<open>find_local_events_via_search\<close> that lead from the arguments and
  the current date to the prompt: the end date, the date range and the f-string. They
  run before the \<^verbatim>\<open>try\<close> block, so an overflow of the date arithmetic leaves the
  function at once.
\<close>

definition build_prompt :: "string \<Rightarrow> string \<Rightarrow> int \<Rightarrow> date \<Rightarrow> exn + string" where
  "build_prompt location interest_description timeframe_days today =
     (case timedelta timeframe_days of
        Inl e \<Rightarrow> Inl e
      | Inr delta \<Rightarrow>
          (case date_add today delta of
             Inl e \<Rightarrow> Inl e
           | Inr end_date \<Rightarrow>
               let date_range_str = strftime today @ '' and '' @ strftime end_date
               in Inr (prompt_text location interest_description timeframe_days date_range_str)))"

subsection \<open>The answer of the model\<close>

text \<open>
  A block reason is a member of the service's enumeration: an integer value, which is
  zero for the unspecified reason and decides its truth value, and a name. The response
  is read through three attributes. \<^verbatim>\<open>parts\<close> is a sequence, of which only emptiness
  matters; the block reason of \<^verbatim>\<open>prompt_feedback\<close> may be \<^verbatim>\<open>None\<close>; reading \<^verbatim>\<open>text\<close>
  gives a string or raises, and \<^verbatim>\<open>hasattr\<close> turns exactly an \<^verbatim>\<open>AttributeError\<close> into
  \<^verbatim>\<open>False\<close>.
\<close>

record block_reason =
  reason_value :: int
  reason_name :: string

datatype text_attr = Text string | TextRaises exn

record response =
  parts :: "string list"
  prompt_feedback_block_reason :: "block_reason option"
  text_attr :: text_attr

datatype gen_outcome = Returns response | Raises exn

type_synonym model = "string \<Rightarrow> gen_outcome"

text \<open>
  The state outside the program: the date the system clock reports, and the prompts
  that have been sent to the model service so far.
\<close>

record world =
  system_date :: date
  sent_prompts :: "string list"

definition generate_content :: "model \<Rightarrow> string \<Rightarrow> world \<Rightarrow> gen_outcome \<times> world" where
  "generate_content m p w = (m p, w\<lparr>sent_prompts := sent_prompts w @ [p]\<rparr>)"

definition hasattr_text :: "response \<Rightarrow> exn + bool" where
  "hasattr_text r =
     (case text_attr r of
        Text t \<Rightarrow> Inr True
      | TextRaises e \<Rightarrow> if exn_class e = AttributeError then Inr False else Inl e)"

definition get_text :: "response \<Rightarrow> exn + string" where
  "get_text r = (case text_attr r of Text t \<Rightarrow> Inr t | TextRaises e \<Rightarrow> Inl e)"

definition empty_response :: exn where
  "empty_response = Exn PlainException ''Content generation failed. Received an empty response.''"

definition text_fallback :: "response \<Rightarrow> exn + string" where
  \<comment> \<open>\<^verbatim>\<open>parts\<close> is empty and nothing was blocked: the text, when there is one, else the failure\<close>
  "text_fallback r =
     (case hasattr_text r of
        Inl e \<Rightarrow> Inl e
      | Inr False \<Rightarrow> Inl empty_response
      | Inr True \<Rightarrow>
          (case get_text r of
             Inl e \<Rightarrow> Inl e
           | Inr t \<Rightarrow> if t \<noteq> [] then Inr t else Inl empty_response))"

definition handle_response :: "response \<Rightarrow> exn + string" where
  \<comment> \<open>the statements after \<^verbatim>\<open>generate_content\<close> inside the \<^verbatim>\<open>try\<close> block; the
      \<^verbatim>\<open>except\<close> clause re-raises what it caught\<close>
  "handle_response r =
     (if parts r = [] then
        (case prompt_feedback_block_reason r of
           None \<Rightarrow> text_fallback r
         | Some br \<Rightarrow>
             if reason_value br \<noteq> 0
             then Inl (Exn PlainException
                    (''Content generation blocked. Reason: '' @ reason_name br))
             else text_fallback r)
      else get_text r)"

definition find_local_events_via_search ::
    "model \<Rightarrow> string \<Rightarrow> string \<Rightarrow> int \<Rightarrow> world \<Rightarrow> (exn + string) \<times> world" where
  "find_local_events_via_search m location interest_description timeframe_days w =
     (case build_prompt location interest_description timeframe_days (system_date w) of
        Inl e \<Rightarrow> (Inl e, w)
      | Inr p \<Rightarrow>
          (case generate_content m p w of
             (Raises e, w') \<Rightarrow> (Inl e, w')
           | (Returns r, w') \<Rightarrow> (handle_response r, w')))"

section \<open>\<^verbatim>\<open>main.py\<close>: the request handler\<close>

definition default_timeframe_days :: int where
  \<comment> \<open>the default of the parameter \<^verbatim>\<open>timeframe_days\<close>, which the handler never passes\<close>
  "default_timeframe_days = 14"

record EventRequest =
  interest_description :: string
  location :: string

record EventResponse =
  results_text :: string
  error :: "string option"

text \<open>
  The handler reads the global \<^verbatim>\<open>gemini_model\<close>, which is \<^verbatim>\<open>None\<close> when start-up could
  not build the client. \<open>Inl\<close> would be an exception leaving the handler.
\<close>

definition find_events_api ::
    "model option \<Rightarrow> EventRequest \<Rightarrow> world \<Rightarrow> (exn + EventResponse) \<times> world" where
  "find_events_api gemini_model request_data w =
     (case gemini_model of
        None \<Rightarrow>
          (Inr \<lparr>results_text = [],
                error = Some ''AI model is not available. Please check server logs or try again later.''\<rparr>,
           w)
      | Some m \<Rightarrow>
          (case find_local_events_via_search m (location request_data)
                  (interest_description request_data) default_timeframe_days w of
             (Inr generated_text_summary, w') \<Rightarrow>
               (Inr \<lparr>results_text = generated_text_summary, error = None\<rparr>, w')
           | (Inl e, w') \<Rightarrow>
               (Inr \<lparr>results_text = [],
                     error = Some (''Failed to find events: '' @ exn_str e)\<rparr>,
                w')))"

section \<open>Notions used in the statements\<close>

text \<open>
  The number of positions of a string at which a given string starts; occurrences may
  overlap.
\<close>

fun occurrences :: "'a list \<Rightarrow> 'a list \<Rightarrow> nat" where
  "occurrences sub [] = (if sub = [] then 1 else 0)"
| "occurrences sub (y # ys) = (if prefix sub (y # ys) then 1 else 0) + occurrences sub ys"

text \<open>
  A response carries no block reason when the field is \<^verbatim>\<open>None\<close> or holds the member
  of value zero. Its text is missing when reading the attribute raises \<^verbatim>\<open>AttributeError\<close>,
  which is when \<^verbatim>\<open>hasattr\<close> is false, and empty when it holds the empty string.
\<close>

definition no_block_reason :: "response \<Rightarrow> bool" where
  "no_block_reason r =
     (case prompt_feedback_block_reason r of None \<Rightarrow> True | Some br \<Rightarrow> reason_value br = 0)"

definition text_missing_or_empty :: "response \<Rightarrow> bool" where
  "text_missing_or_empty r =
     (case text_attr r of Text t \<Rightarrow> t = [] | TextRaises e \<Rightarrow> exn_class e = AttributeError)"

text \<open>
  The rendering ``Month DD, YYYY'' as the specification words it: the month's name, the
  day as two digits, the year as four digits. It is compared with \<^const>\<open>strftime\<close> below.
\<close>

definition month_dd_yyyy :: "date \<Rightarrow> string" where
  "month_dd_yyyy d =
     (let dd = nat (day d); yyyy = nat (year d)
      in MONTH_NAMES ! nat (month d - 1) @ '' '' @
         [digit_char (dd div 10), digit_char (dd mod 10)] @ '', '' @
         [digit_char (yyyy div 1000), digit_char (yyyy div 100 mod 10),
          digit_char (yyyy div 10 mod 10), digit_char (yyyy mod 10)])"

subsection \<open>Example inputs\<close>

definition april_first :: date where
  "april_first = \<lparr>year = 2025, month = 4, day = 1\<rparr>"

definition example_request :: EventRequest where
  "example_request = \<lparr>interest_description = ''live jazz'', location = ''Blaine, MN''\<rparr>"

definition example_world :: world where
  "example_world = \<lparr>system_date = april_first, sent_prompts = []\<rparr>"

definition example_prompt :: string where
  "example_prompt =
     prompt_text ''Blaine, MN'' ''live jazz'' 14 ''April 01, 2025 and April 15, 2025''"

definition quota_model :: model where
  "quota_model p = Raises (Exn OtherException ''quota exceeded'')"

definition blocked_model :: model where
  "blocked_model p =
     Returns \<lparr>parts = [],
              prompt_feedback_block_reason = Some \<lparr>reason_value = 1, reason_name = ''SAFETY''\<rparr>,
              text_attr = TextRaises (Exn OtherException ''no valid part'')\<rparr>"

definition fallback_model :: model where
  "fallback_model p =
     Returns \<lparr>parts = [],
              prompt_feedback_block_reason =
                Some \<lparr>reason_value = 0, reason_name = ''BLOCK_REASON_UNSPECIFIED''\<rparr>,
              text_attr = Text ''Found 2 events...''\<rparr>"

definition empty_model :: model where
  "empty_model p =
     Returns \<lparr>parts = [], prompt_feedback_block_reason = None,
              text_attr = TextRaises (Exn AttributeError ''no attribute text'')\<rparr>"

definition april_first_999 :: date where
  "april_first_999 = \<lparr>year = 999, month = 4, day = 1\<rparr>"

definition raising_text_model :: model where
  "raising_text_model p =
     Returns \<lparr>parts = [], prompt_feedback_block_reason = None,
              text_attr = TextRaises (Exn OtherException ''no valid part'')\<rparr>"

subsection \<open>Auxiliary functions of the calendar proofs\<close>

text \<open>
  The last part of \<^const>\<open>ord2ymd\<close>, from the offset within the year to the month and the
  day, and the properties that the proofs establish for it and for the whole function.
\<close>

definition month_day :: "int \<Rightarrow> bool \<Rightarrow> int \<Rightarrow> int \<times> int \<times> int" where
  "month_day y leapyear n =
     (let month = (n + 50) div 32;
          preceding = DAYS_BEFORE_MONTH ! nat month + (if month > 2 \<and> leapyear then 1 else 0)
      in if preceding > n
         then
           let month = month - 1;
               preceding = preceding -
                 (DAYS_IN_MONTH ! nat month + (if month = 2 \<and> leapyear then 1 else 0))
           in (y, month, n - preceding + 1)
         else (y, month, n - preceding + 1))"

definition month_day_ok :: "int \<Rightarrow> bool \<Rightarrow> int \<Rightarrow> int \<times> int \<times> int \<Rightarrow> bool" where
  "month_day_ok y leap n ymd = (case ymd of (y', m, d) \<Rightarrow>
      y' = y \<and> 1 \<le> m \<and> m \<le> 12 \<and> 1 \<le> d \<and> d \<le> (if m = 2 \<and> leap then 29 else DAYS_IN_MONTH ! nat m) \<and>
      DAYS_BEFORE_MONTH ! nat m + (if m > 2 \<and> leap then 1 else 0) + d = n + 1)"

definition ymd_ok :: "int \<Rightarrow> int \<times> int \<times> int \<Rightarrow> bool" where
  "ymd_ok n0 ymd = (case ymd of (y, m, d) \<Rightarrow>
      ymd2ord y m d = n0 \<and> 1 \<le> y \<and> (if n0 \<le> MAXORDINAL then y \<le> 9999 else True) \<and>
      1 \<le> m \<and> m \<le> 12 \<and> 1 \<le> d \<and> d \<le> days_in_month y m)"

section \<open>The calendar\<close>

lemma DAYS_BEFORE_MONTH_eq:
  "DAYS_BEFORE_MONTH = [-1, 0, 31, 59, 90, 120, 151, 181, 212, 243, 273, 304, 334]"
  by (simp add: DAYS_BEFORE_MONTH_def DAYS_IN_MONTH_def)

lemma DI_eq: "DI400Y = 146097" "DI100Y = 36524" "DI4Y = 1461"
  by (simp_all add: DI400Y_def DI100Y_def DI4Y_def days_before_year_def)

lemma month_day_correct:
  assumes "0 \<le> n" and "n < (if leap then 366 else 365)"
  shows "month_day_ok y leap n (month_day y leap n)"
proof -
  define k where "k = (n + 50) div 32"
  have kb: "1 \<le> k" "k \<le> 12" "32 * k \<le> n + 50" "n + 50 < 32 * k + 32"
    using assms by (auto simp: k_def split: if_splits)
  have "k = 1 \<or> k = 2 \<or> k = 3 \<or> k = 4 \<or> k = 5 \<or> k = 6 \<or> k = 7 \<or> k = 8 \<or> k = 9
      \<or> k = 10 \<or> k = 11 \<or> k = 12"
    using kb(1,2) by presburger
  then consider "k = 1" | "k = 2" | "k = 3" | "k = 4" | "k = 5" | "k = 6"
    | "k = 7" | "k = 8" | "k = 9" | "k = 10" | "k = 11" | "k = 12"
    by blast
  then show ?thesis
  proof cases
    case 1 then show ?thesis using kb assms
      by (auto simp: month_day_def month_day_ok_def Let_def k_def[symmetric] DAYS_BEFORE_MONTH_eq
          DAYS_IN_MONTH_def split: if_splits)
  next
    case 2 then show ?thesis using kb assms
      by (auto simp: month_day_def month_day_ok_def Let_def k_def[symmetric] DAYS_BEFORE_MONTH_eq
          DAYS_IN_MONTH_def split: if_splits)
  next
    case 3 then show ?thesis using kb assms
      by (auto simp: month_day_def month_day_ok_def Let_def k_def[symmetric] DAYS_BEFORE_MONTH_eq
          DAYS_IN_MONTH_def split: if_splits)
  next
    case 4 then show ?thesis using kb assms
      by (auto simp: month_day_def month_day_ok_def Let_def k_def[symmetric] DAYS_BEFORE_MONTH_eq
          DAYS_IN_MONTH_def split: if_splits)
  next
    case 5 then show ?thesis using kb assms
      by (auto simp: month_day_def month_day_ok_def Let_def k_def[symmetric] DAYS_BEFORE_MONTH_eq
          DAYS_IN_MONTH_def split: if_splits)
  next
    case 6 then show ?thesis using kb assms
      by (auto simp: month_day_def month_day_ok_def Let_def k_def[symmetric] DAYS_BEFORE_MONTH_eq
          DAYS_IN_MONTH_def split: if_splits)
  next
    case 7 then show ?thesis using kb assms
      by (auto simp: month_day_def month_day_ok_def Let_def k_def[symmetric] DAYS_BEFORE_MONTH_eq
          DAYS_IN_MONTH_def split: if_splits)
  next
    case 8 then show ?thesis using kb assms
      by (auto simp: month_day_def month_day_ok_def Let_def k_def[symmetric] DAYS_BEFORE_MONTH_eq
          DAYS_IN_MONTH_def split: if_splits)
  next
    case 9 then show ?thesis using kb assms
      by (auto simp: month_day_def month_day_ok_def Let_def k_def[symmetric] DAYS_BEFORE_MONTH_eq
          DAYS_IN_MONTH_def split: if_splits)
  next
    case 10 then show ?thesis using kb assms
      by (auto simp: month_day_def month_day_ok_def Let_def k_def[symmetric] DAYS_BEFORE_MONTH_eq
          DAYS_IN_MONTH_def split: if_splits)
  next
    case 11 then show ?thesis using kb assms
      by (auto simp: month_day_def month_day_ok_def Let_def k_def[symmetric] DAYS_BEFORE_MONTH_eq
          DAYS_IN_MONTH_def split: if_splits)
  next
    case 12 then show ?thesis using kb assms
      by (auto simp: month_day_def month_day_ok_def Let_def k_def[symmetric] DAYS_BEFORE_MONTH_eq
          DAYS_IN_MONTH_def split: if_splits)
  qed
qed

text \<open>
  A year is written \<open>400 a + 100 b + 4 c + e + 1\<close>, the digits that \<^const>\<open>ord2ymd\<close>
  computes by division; the days before it and its being a leap year follow from them.
\<close>

lemma year_shape:
  fixes a b c e :: int
  assumes "0 \<le> b" "b \<le> 3" "0 \<le> c" "c \<le> 24" "0 \<le> e" "e \<le> 3"
  shows "days_before_year (400 * a + 100 * b + 4 * c + e + 1) =
           146097 * a + 36524 * b + 1461 * c + 365 * e"
    and "is_leap (400 * a + 100 * b + 4 * c + e + 1) \<longleftrightarrow> e = 3 \<and> (c \<noteq> 24 \<or> b = 3)"
proof -
  let ?y = "400 * a + 100 * b + 4 * c + e"
  have d4: "?y div 4 = 100 * a + 25 * b + c"
    using assms by (intro int_div_pos_eq[where r = e]) auto
  have d100: "?y div 100 = 4 * a + b"
    using assms by (intro int_div_pos_eq[where r = "4 * c + e"]) auto
  have d400: "?y div 400 = a"
    using assms by (intro int_div_pos_eq[where r = "100 * b + 4 * c + e"]) auto
  show "days_before_year (?y + 1) = 146097 * a + 36524 * b + 1461 * c + 365 * e"
    by (simp add: days_before_year_def Let_def d4 d100 d400)
  have pos_mod: "x mod k = 0 \<longleftrightarrow> x = k" if "0 < x" "x \<le> k" for x k :: int
    using that by (cases "x = k") auto
  have "?y + 1 = 4 * (100 * a + 25 * b + c) + (e + 1)"
    by simp
  then have m4: "(?y + 1) mod 4 = (e + 1) mod 4"
    by (metis mod_mult_self4)
  have "?y + 1 = 100 * (4 * a + b) + (4 * c + e + 1)"
    by simp
  then have m100: "(?y + 1) mod 100 = (4 * c + e + 1) mod 100"
    by (metis mod_mult_self4)
  have "?y + 1 = 400 * a + (100 * b + 4 * c + e + 1)"
    by simp
  then have m400: "(?y + 1) mod 400 = (100 * b + 4 * c + e + 1) mod 400"
    by (metis mod_mult_self4)
  have e4: "(e + 1) mod 4 = 0 \<longleftrightarrow> e = 3"
    using assms pos_mod[of "e + 1" 4] by auto
  have e100: "(4 * c + e + 1) mod 100 = 0 \<longleftrightarrow> c = 24 \<and> e = 3"
  proof -
    have "4 * c + e + 1 = 100 \<longleftrightarrow> c = 24 \<and> e = 3"
      using assms by (intro iffI conjI; (elim conjE)?; linarith)
    then show ?thesis
      using assms pos_mod[of "4 * c + e + 1" 100] by simp
  qed
  have e400: "(100 * b + 4 * c + e + 1) mod 400 = 0 \<longleftrightarrow> b = 3 \<and> c = 24 \<and> e = 3"
  proof -
    have "100 * b + 4 * c + e + 1 = 400 \<longleftrightarrow> b = 3 \<and> c = 24 \<and> e = 3"
      using assms by (intro iffI conjI; (elim conjE)?; linarith)
    then show ?thesis
      using assms pos_mod[of "100 * b + 4 * c + e + 1" 400] by simp
  qed
  show "is_leap (?y + 1) \<longleftrightarrow> e = 3 \<and> (c \<noteq> 24 \<or> b = 3)"
    unfolding is_leap_def m4 m100 m400 e4 e100 e400 by auto
qed

lemma ord2ymd_unfold:
  "ord2ymd n0 =
     (let n400 = (n0 - 1) div 146097; r400 = (n0 - 1) mod 146097;
          n100 = r400 div 36524; r100 = r400 mod 36524;
          n4 = r100 div 1461; r4 = r100 mod 1461;
          n1 = r4 div 365; r1 = r4 mod 365;
          y = n400 * 400 + 1 + (n100 * 100 + n4 * 4 + n1)
      in if n1 = 4 \<or> n100 = 4 then (y - 1, 12, 31)
         else month_day y (n1 = 3 \<and> (n4 \<noteq> 24 \<or> n100 = 3)) r1)"
  unfolding ord2ymd_def month_day_def DI_eq Let_def ..

text \<open>Every ordinal from 1 on is the ordinal of the date that \<^const>\<open>ord2ymd\<close> gives for it.\<close>

lemma ord2ymd_correct:
  assumes "1 \<le> n0"
  shows "ymd_ok n0 (ord2ymd n0)"
proof -
  define a where "a = (n0 - 1) div 146097"
  define r400 where "r400 = (n0 - 1) mod 146097"
  define b where "b = r400 div 36524"
  define r100 where "r100 = r400 mod 36524"
  define c where "c = r100 div 1461"
  define r4 where "r4 = r100 mod 1461"
  define e where "e = r4 div 365"
  define r1 where "r1 = r4 mod 365"
  have n0: "n0 - 1 = 146097 * a + r400"
    unfolding a_def r400_def by simp
  have r400: "0 \<le> r400" "r400 < 146097"
    unfolding r400_def by simp_all
  have a: "0 \<le> a"
    using assms unfolding a_def by (simp add: pos_imp_zdiv_nonneg_iff)
  have r400': "r400 = 36524 * b + r100"
    unfolding b_def r100_def by simp
  have r100: "0 \<le> r100" "r100 < 36524"
    unfolding r100_def by simp_all
  have b0: "0 \<le> b"
    using r400 unfolding b_def by (simp add: pos_imp_zdiv_nonneg_iff)
  have b4: "b \<le> 4"
    using r400 r400' r100 by linarith
  note b = b0 b4
  have r100': "r100 = 1461 * c + r4"
    unfolding c_def r4_def by simp
  have r4: "0 \<le> r4" "r4 < 1461"
    unfolding r4_def by simp_all
  have c0: "0 \<le> c"
    using r100 unfolding c_def by (simp add: pos_imp_zdiv_nonneg_iff)
  have c24: "c \<le> 24"
    using r100 r100' r4 by linarith
  note c = c0 c24
  have r4': "r4 = 365 * e + r1"
    unfolding e_def r1_def by simp
  have r1: "0 \<le> r1" "r1 < 365"
    unfolding r1_def by simp_all
  have e0: "0 \<le> e"
    using r4 unfolding e_def by (simp add: pos_imp_zdiv_nonneg_iff)
  have e4: "e \<le> 4"
    using r4 r4' r1 by linarith
  note e = e0 e4
  have unf: "ord2ymd n0 =
      (if e = 4 \<or> b = 4 then (a * 400 + 1 + (b * 100 + c * 4 + e) - 1, 12, 31)
       else month_day (a * 400 + 1 + (b * 100 + c * 4 + e)) (e = 3 \<and> (c \<noteq> 24 \<or> b = 3)) r1)"
    unfolding ord2ymd_unfold Let_def a_def r400_def b_def r100_def c_def r4_def e_def r1_def ..
  show ?thesis
  proof (cases "b = 4")
    case True
    then have "r100 = 0"
      using r400 r400' r100 by linarith
    then have "c = 0" "r4 = 0" "e = 0"
      by (simp_all add: c_def r4_def e_def)
    have y: "a * 400 + 1 + (b * 100 + c * 4 + e) - 1 = 400 * a + 100 * 3 + 4 * 24 + 3 + 1"
      using True \<open>c = 0\<close> \<open>e = 0\<close> by simp
    have amax: "a \<le> 23" if "n0 \<le> 3652059"
      using that n0 r400' True \<open>r100 = 0\<close> by linarith
    have res: "ord2ymd n0 = (400 * a + 100 * 3 + 4 * 24 + 3 + 1, 12, 31)"
      unfolding unf y using True by simp
    have leap: "is_leap (400 * a + 100 * 3 + 4 * 24 + 3 + 1)"
      by (subst year_shape(2)) simp_all
    have dby: "days_before_year (400 * a + 100 * 3 + 4 * 24 + 3 + 1) = 146097 * a + 36524 * 3 + 1461 * 24 + 365 * 3"
      by (subst year_shape(1)) simp_all
    have ord: "ymd2ord (400 * a + 100 * 3 + 4 * 24 + 3 + 1) 12 31 = n0"
      unfolding ymd2ord_def days_before_month_def dby DAYS_BEFORE_MONTH_eq
      using leap n0 r400' True \<open>r100 = 0\<close> by simp
    have dim: "days_in_month (400 * a + 100 * 3 + 4 * 24 + 3 + 1) 12 = 31"
      by (simp add: days_in_month_def DAYS_IN_MONTH_def)
    have ymax: "400 * a + 100 * 3 + 4 * 24 + 3 + 1 \<le> 9999" if "n0 \<le> MAXORDINAL"
      using amax that by (simp add: MAXORDINAL_def)
    have ypos: "1 \<le> 400 * a + 100 * 3 + 4 * 24 + 3 + 1"
      using a by simp
    show ?thesis
      unfolding res ymd_ok_def prod.case ord dim using ymax ypos by simp
  next
    case nb4: False
    then have b3: "b \<le> 3" using b by simp
    show ?thesis
    proof (cases "e = 4")
      case True
      then have r4v: "r4 = 1460"
        using r4' r4 r1 by linarith
      have c23: "c \<le> 23"
        using r100' r100 r4v c by linarith
      have y: "a * 400 + 1 + (b * 100 + c * 4 + e) - 1 = 400 * a + 100 * b + 4 * c + 3 + 1"
        using True by simp
      have ymax: "400 * a + 100 * b + 4 * c + 3 + 1 \<le> 9999" if "n0 \<le> 3652059"
      proof -
        have "a \<le> 24"
          using that n0 r400' r100' r4v b c by linarith
        then show ?thesis
          using b3 c23 by linarith
      qed
      let ?Y = "400 * a + 100 * b + 4 * c + 3 + 1"
      have res: "ord2ymd n0 = (?Y, 12, 31)"
        unfolding unf y using True by simp
      have leap: "is_leap ?Y"
        using b b3 c c23 by (subst year_shape(2)) simp_all
      have dby: "days_before_year ?Y = 146097 * a + 36524 * b + 1461 * c + 365 * 3"
        using b b3 c by (subst year_shape(1)) simp_all
      have ord: "ymd2ord ?Y 12 31 = n0"
        unfolding ymd2ord_def days_before_month_def dby DAYS_BEFORE_MONTH_eq
        using leap n0 r400' r100' r4v by simp
      have dim: "days_in_month ?Y 12 = 31"
        by (simp add: days_in_month_def DAYS_IN_MONTH_def)
      have ymax': "?Y \<le> 9999" if "n0 \<le> MAXORDINAL"
        using ymax that by (simp add: MAXORDINAL_def)
      have ypos: "1 \<le> ?Y"
        using a b c by simp
      show ?thesis
        unfolding res ymd_ok_def prod.case ord dim using ymax' ypos by simp
    next
      case ne4: False
      then have e3: "e \<le> 3" using e by simp
      let ?leap = "e = 3 \<and> (c \<noteq> 24 \<or> b = 3)"
      let ?Y = "400 * a + 100 * b + 4 * c + e + 1"
      have y: "a * 400 + 1 + (b * 100 + c * 4 + e) = ?Y"
        by simp
      obtain y' m d where md: "month_day ?Y ?leap r1 = (y', m, d)"
        by (cases "month_day ?Y ?leap r1")
      have "month_day_ok ?Y ?leap r1 (month_day ?Y ?leap r1)"
        using r1 by (intro month_day_correct) auto
      then have y': "y' = ?Y" and mdok: "1 \<le> m" "m \<le> 12" "1 \<le> d"
        "d \<le> (if m = 2 \<and> ?leap then 29 else DAYS_IN_MONTH ! nat m)"
        "DAYS_BEFORE_MONTH ! nat m + (if m > 2 \<and> ?leap then 1 else 0) + d = r1 + 1"
        unfolding md month_day_ok_def by simp_all
      have leap: "is_leap ?Y \<longleftrightarrow> ?leap"
        using b0 b3 c0 c24 e0 e3 by (rule year_shape(2))
      have dby: "days_before_year ?Y = 146097 * a + 36524 * b + 1461 * c + 365 * e"
        using b0 b3 c0 c24 e0 e3 by (rule year_shape(1))
      have ymax: "?Y \<le> 9999" if "n0 \<le> 3652059"
        using that n0 r400' r100' r4' r1 b3 c e3 by linarith
      have ord: "ymd2ord ?Y m d = n0"
        unfolding ymd2ord_def days_before_month_def leap dby
        using mdok(5) n0 r400' r100' r4' by simp
      have ypos: "1 \<le> ?Y" using a b c e by simp
      have res: "ord2ymd n0 = (?Y, m, d)"
        unfolding unf y md y' using nb4 ne4 by simp
      have dim: "d \<le> days_in_month ?Y m"
        unfolding days_in_month_def leap using mdok(4) .
      have ymax': "?Y \<le> 9999" if "n0 \<le> MAXORDINAL"
        using ymax that by (simp add: MAXORDINAL_def)
      show ?thesis
        unfolding res ymd_ok_def prod.case ord using ymax' ypos mdok(1-3) dim by simp
    qed
  qed
qed

lemma DAYS_BEFORE_MONTH_nonneg:
  assumes "1 \<le> m" "m \<le> 12"
  shows "0 \<le> DAYS_BEFORE_MONTH ! nat m"
proof -
  have "m = 1 \<or> m = 2 \<or> m = 3 \<or> m = 4 \<or> m = 5 \<or> m = 6 \<or> m = 7 \<or> m = 8 \<or> m = 9
      \<or> m = 10 \<or> m = 11 \<or> m = 12"
    using assms by presburger
  then show ?thesis
    by (auto simp: DAYS_BEFORE_MONTH_eq)
qed

lemma days_before_year_nonneg:
  assumes "1 \<le> y"
  shows "0 \<le> days_before_year y"
proof -
  have "(y - 1) div 100 \<le> (y - 1) div 4"
    using assms by (intro zdiv_mono2) auto
  moreover have "0 \<le> (y - 1) div 400"
    using assms by (simp add: pos_imp_zdiv_nonneg_iff)
  ultimately show ?thesis
    using assms by (simp add: days_before_year_def Let_def)
qed

lemma toordinal_pos: "valid_date d \<Longrightarrow> 1 \<le> toordinal d"
  using days_before_year_nonneg[of "year d"] DAYS_BEFORE_MONTH_nonneg[of "month d"]
  by (auto simp: valid_date_def toordinal_def ymd2ord_def days_before_month_def)

lemma fromordinal_correct:
  assumes "1 \<le> n" "n \<le> MAXORDINAL"
  shows "valid_date (fromordinal n)" and "toordinal (fromordinal n) = n"
  using ord2ymd_correct[OF assms(1)] assms(2)
  by (auto simp: ymd_ok_def fromordinal_def valid_date_def toordinal_def split: prod.splits)

lemma date_add_in_range:
  assumes "0 < toordinal d + n" "toordinal d + n \<le> MAXORDINAL"
  shows "date_add d n = Inr (fromordinal (toordinal d + n))"
  using assms by (simp add: date_add_def)

lemma date_add_ordinal:
  assumes "date_add d n = Inr d'"
  shows "toordinal d' = toordinal d + n" and "valid_date d'"
proof -
  have rng: "1 \<le> toordinal d + n" "toordinal d + n \<le> MAXORDINAL" and d': "d' = fromordinal (toordinal d + n)"
    using assms by (auto simp: date_add_def Let_def split: if_splits)
  show "toordinal d' = toordinal d + n" "valid_date d'"
    unfolding d' using rng by (rule fromordinal_correct)+
qed

lemma timedelta_small: "\<bar>n\<bar> \<le> 999999999 \<Longrightarrow> timedelta n = Inr n"
  by (auto simp: timedelta_def)

lemma days_in_month_le_31:
  assumes "1 \<le> m" "m \<le> 12"
  shows "days_in_month y m \<le> 31"
proof -
  have "m = 1 \<or> m = 2 \<or> m = 3 \<or> m = 4 \<or> m = 5 \<or> m = 6 \<or> m = 7 \<or> m = 8 \<or> m = 9
      \<or> m = 10 \<or> m = 11 \<or> m = 12"
    using assms by presburger
  then show ?thesis
    by (auto simp: days_in_month_def DAYS_IN_MONTH_def)
qed

section \<open>Rendering of dates\<close>

lemma str_nat_1: "n < 10 \<Longrightarrow> str_nat n = [digit_char n]"
  by (simp add: str_nat.simps)

lemma str_nat_2: "10 \<le> n \<Longrightarrow> n < 100 \<Longrightarrow> str_nat n = [digit_char (n div 10), digit_char (n mod 10)]"
  by (subst str_nat.simps) (simp add: str_nat_1)

lemma str_nat_3:
  "100 \<le> n \<Longrightarrow> n < 1000 \<Longrightarrow>
   str_nat n = [digit_char (n div 100), digit_char (n div 10 mod 10), digit_char (n mod 10)]"
  by (subst str_nat.simps) (simp add: str_nat_2 div_mult2_eq[symmetric])

lemma str_nat_4:
  "1000 \<le> n \<Longrightarrow> n < 10000 \<Longrightarrow>
   str_nat n = [digit_char (n div 1000), digit_char (n div 100 mod 10),
                digit_char (n div 10 mod 10), digit_char (n mod 10)]"
  by (subst str_nat.simps) (simp add: str_nat_3 div_mult2_eq[symmetric])

lemma two_digits_day:
  assumes "1 \<le> d" "d \<le> 31"
  shows "two_digits d = [digit_char (nat d div 10), digit_char (nat d mod 10)]"
proof (cases "d < 10")
  case True
  then have "nat d < 10" "nat d div 10 = 0" "nat d mod 10 = nat d"
    using assms by auto
  then show ?thesis
    using True assms by (simp add: two_digits_def str_int_def str_nat_1 digit_char_def)
next
  case False
  then have "10 \<le> nat d" "nat d < 100"
    using assms by auto
  then show ?thesis
    using False assms by (simp add: two_digits_def str_int_def str_nat_2)
qed

lemma strftime_style:
  assumes "valid_date d" "1000 \<le> year d"
  shows "strftime d = month_dd_yyyy d"
proof -
  have "day d \<le> 31"
    using assms(1) days_in_month_le_31[of "month d" "year d"] by (auto simp: valid_date_def)
  then have dd: "two_digits (day d) = [digit_char (nat (day d) div 10), digit_char (nat (day d) mod 10)]"
    using assms(1) by (intro two_digits_day) (auto simp: valid_date_def)
  have "1000 \<le> nat (year d)" "nat (year d) < 10000"
    using assms by (auto simp: valid_date_def)
  then have "str_nat (nat (year d)) =
      [digit_char (nat (year d) div 1000), digit_char (nat (year d) div 100 mod 10),
       digit_char (nat (year d) div 10 mod 10), digit_char (nat (year d) mod 10)]"
    by (rule str_nat_4)
  then have yy: "str_int (year d) =
      [digit_char (nat (year d) div 1000), digit_char (nat (year d) div 100 mod 10),
       digit_char (nat (year d) div 10 mod 10), digit_char (nat (year d) mod 10)]"
    using assms(2) by (simp add: str_int_def)
  show ?thesis
    unfolding strftime_def month_dd_yyyy_def Let_def dd yy ..
qed

subsection \<open>The first of April 2025\<close>

lemma april_first_valid: "valid_date april_first"
  by (simp add: april_first_def valid_date_def days_in_month_def DAYS_IN_MONTH_def)

lemma april_first_ordinal: "toordinal april_first = 739342"
  by (simp add: april_first_def toordinal_def ymd2ord_def days_before_year_def
        days_before_month_def DAYS_BEFORE_MONTH_eq is_leap_def)

lemma fromordinal_739356: "fromordinal 739356 = \<lparr>year = 2025, month = 4, day = 15\<rparr>"
  by (simp add: fromordinal_def ord2ymd_def DI_eq DAYS_BEFORE_MONTH_eq DAYS_IN_MONTH_def Let_def)

lemma april_first_plus_14: "date_add april_first 14 = Inr \<lparr>year = 2025, month = 4, day = 15\<rparr>"
  by (simp add: date_add_def april_first_ordinal MAXORDINAL_def fromordinal_739356)

lemma strftime_april_first: "strftime april_first = ''April 01, 2025''"
  by (simp add: april_first_def strftime_def MONTH_NAMES_def two_digits_def str_int_def
        str_nat.simps digit_char_def)

lemma strftime_april_15: "strftime \<lparr>year = 2025, month = 4, day = 15\<rparr> = ''April 15, 2025''"
  by (simp add: strftime_def MONTH_NAMES_def two_digits_def str_int_def
        str_nat.simps digit_char_def)

subsection \<open>The first of April 999\<close>

lemma april_first_999_valid: "valid_date april_first_999"
  by (simp add: april_first_999_def valid_date_def days_in_month_def DAYS_IN_MONTH_def)

lemma april_first_999_ordinal: "toordinal april_first_999 = 364603"
  by (simp add: april_first_999_def toordinal_def ymd2ord_def days_before_year_def
        days_before_month_def DAYS_BEFORE_MONTH_eq is_leap_def)

lemma fromordinal_364617: "fromordinal 364617 = \<lparr>year = 999, month = 4, day = 15\<rparr>"
  by (simp add: fromordinal_def ord2ymd_def DI_eq DAYS_BEFORE_MONTH_eq DAYS_IN_MONTH_def Let_def)

lemma strftime_april_first_999: "strftime april_first_999 = ''April 01, 999''"
  by (simp add: april_first_999_def strftime_def MONTH_NAMES_def two_digits_def str_int_def
        str_nat.simps digit_char_def)

lemma strftime_april_15_999: "strftime \<lparr>year = 999, month = 4, day = 15\<rparr> = ''April 15, 999''"
  by (simp add: strftime_def MONTH_NAMES_def two_digits_def str_int_def
        str_nat.simps digit_char_def)

lemma month_dd_yyyy_april_first_999: "month_dd_yyyy april_first_999 = ''April 01, 0999''"
  by (simp add: april_first_999_def month_dd_yyyy_def MONTH_NAMES_def digit_char_def)

section \<open>The prompt\<close>

lemma sublist_skip: "sublist xs zs \<Longrightarrow> sublist xs (ys @ zs)"
  by (auto simp: sublist_def) (metis append.assoc)

lemma sublist_trans: "sublist xs ys \<Longrightarrow> sublist ys zs \<Longrightarrow> sublist xs zs"
  by (auto simp: sublist_def) (metis append.assoc)

lemma sublist_left: "sublist xs (xs @ ys)"
  by (rule sublist_append_rightI)

lemma sublist_right2: "sublist zs (xs @ ys @ zs)"
  by (metis append.assoc sublist_append_leftI)

lemma sublist_at: "prefix xs zs \<Longrightarrow> sublist (a @ xs) (a @ zs)"
  by (metis prefix_imp_sublist same_prefix_prefix)

lemma prompt_text_location: "sublist loc (prompt_text loc i n dr)"
  unfolding prompt_text_def by (rule sublist_append_rightI | rule sublist_skip)+

lemma prompt_text_interest: "sublist i (prompt_text loc i n dr)"
  unfolding prompt_text_def by (rule sublist_append_rightI | rule sublist_skip)+

lemma prompt_text_date_range: "sublist dr (prompt_text loc i n dr)"
  unfolding prompt_text_def by (rule sublist_append_rightI | rule sublist_skip)+

lemma prompt_text_interest_line:
  "sublist (''    **User's Interest:** Find events related to '' @ [CHR 0x22] @ i @ [CHR 0x22]) (prompt_text loc i n dr)"
  unfolding prompt_text_def
  apply (rule sublist_at | rule sublist_skip)+
  apply simp
  done

lemma prompt_text_filter_line:
  "sublist (''user's interest: '' @ [CHR 0x22] @ i @ [CHR 0x22]) (prompt_text loc i n dr)"
  unfolding prompt_text_def
  apply (rule sublist_at | rule sublist_skip)+
  apply simp
  done

lemma prompt_text_fallback:
  "sublist (''No specific events matching '' @ [CHR 0x27] @ i @ [CHR 0x27] @ '' were found in '' @
      loc @ '' for the next '' @ str_int n @ '' days.'') (prompt_text loc i n dr)"
  unfolding prompt_text_def
  apply (rule sublist_at | rule sublist_skip)+
  apply simp
  done

lemma prompt_text_window:
  "sublist ('' for the next '' @ str_int n @ '' days.'') (prompt_text loc i n dr)"
  unfolding prompt_text_def
  apply (rule sublist_at | rule sublist_skip)+
  apply simp
  done

lemma occurrences_skip: "k \<le> occurrences sub zs \<Longrightarrow> k \<le> occurrences sub (ys @ zs)"
  by (induction ys) auto

lemma occurrences_here:
  assumes "sub \<noteq> []" "k \<le> occurrences sub zs"
  shows "Suc k \<le> occurrences sub (sub @ zs)"
proof -
  obtain x xs where sub: "sub = x # xs"
    using assms(1) by (cases sub) auto
  have "k \<le> occurrences sub (xs @ zs)"
    using assms(2) by (rule occurrences_skip)
  then show ?thesis
    by (simp add: sub)
qed

lemma occurrences_Nil: "occurrences [] zs = Suc (length zs)"
  by (induction zs) auto

lemma prompt_text_occurrences: "3 \<le> occurrences i (prompt_text loc i n dr)"
proof (cases "i = []")
  case True
  then show ?thesis
    by (simp add: occurrences_Nil prompt_text_def)
next
  case False
  have "Suc (Suc (Suc 0)) \<le> occurrences i (prompt_text loc i n dr)"
    unfolding prompt_text_def
    apply ((rule occurrences_here, rule False) | rule occurrences_skip)+
    apply simp
    done
  then show ?thesis by simp
qed

text \<open>
  A text with three holes: the rules walk along the f-string, past a piece that does not
  depend on the interest or into the next hole.
\<close>

lemma slots_skip3:
  "\<exists>A B C D. \<forall>i. g i = A @ i @ B @ i @ C @ i @ D \<Longrightarrow>
   \<exists>A B C D. \<forall>i. ys @ g i = A @ i @ B @ i @ C @ i @ (D::'a list)"
  by (metis append.assoc)

lemma slots_hit3:
  "\<exists>B C D. \<forall>i. g i = B @ i @ C @ i @ D \<Longrightarrow>
   \<exists>A B C D. \<forall>i. i @ g i = A @ i @ B @ i @ C @ i @ (D::'a list)"
  by (metis append_Nil)

lemma slots_skip2:
  "\<exists>B C D. \<forall>i. g i = B @ i @ C @ i @ D \<Longrightarrow>
   \<exists>B C D. \<forall>i. ys @ g i = B @ i @ C @ i @ (D::'a list)"
  by (metis append.assoc)

lemma slots_hit2:
  "\<exists>C D. \<forall>i. g i = C @ i @ D \<Longrightarrow>
   \<exists>B C D. \<forall>i. i @ g i = B @ i @ C @ i @ (D::'a list)"
  by (metis append_Nil)

lemma slots_skip1:
  "\<exists>C D. \<forall>i. g i = C @ i @ D \<Longrightarrow> \<exists>C D. \<forall>i. ys @ g i = C @ i @ (D::'a list)"
  by (metis append.assoc)

lemma slots_hit1: "\<exists>C D. \<forall>i. i @ d = C @ i @ (D::'a list)"
  by (metis append_Nil)

lemma prompt_text_slots:
  "\<exists>A B C D. \<forall>i. prompt_text loc i n dr = A @ i @ B @ i @ C @ i @ D"
  unfolding prompt_text_def
  apply (rule slots_hit3 | rule slots_skip3)+
  apply (rule slots_hit2 | rule slots_skip2)+
  apply (rule slots_hit1 | rule slots_skip1)+
  done

lemma build_prompt_in_range:
  assumes "valid_date today" "0 < n" "toordinal today + n \<le> MAXORDINAL"
  shows "build_prompt loc i n today =
           Inr (prompt_text loc i n
                  (strftime today @ '' and '' @ strftime (fromordinal (toordinal today + n))))"
proof -
  have pos: "1 \<le> toordinal today"
    using assms(1) by (rule toordinal_pos)
  then have "\<bar>n\<bar> \<le> 999999999"
    using assms(2,3) by (simp add: MAXORDINAL_def)
  then have td: "timedelta n = Inr n"
    by (rule timedelta_small)
  have da: "date_add today n = Inr (fromordinal (toordinal today + n))"
    using pos assms(2,3) by (intro date_add_in_range) auto
  show ?thesis
    by (simp add: build_prompt_def td da)
qed

lemma build_prompt_text:
  assumes "build_prompt loc i n today = Inr p"
  shows "\<exists>dr. p = prompt_text loc i n dr"
  using assms by (auto simp: build_prompt_def Let_def split: sum.splits)

lemma build_prompt_slots:
  assumes "build_prompt loc i n today = Inr p"
  shows "\<exists>A B C D. \<forall>j. build_prompt loc j n today = Inr (A @ j @ B @ j @ C @ j @ D)"
proof -
  obtain dr where dr: "\<And>j. build_prompt loc j n today = Inr (prompt_text loc j n dr)"
    using assms by (auto simp: build_prompt_def Let_def split: sum.splits)
  obtain A B C D where "\<forall>j. prompt_text loc j n dr = A @ j @ B @ j @ C @ j @ D"
    using prompt_text_slots by blast
  then have "\<forall>j. build_prompt loc j n today = Inr (A @ j @ B @ j @ C @ j @ D)"
    by (simp add: dr)
  then show ?thesis
    by blast
qed

lemma build_prompt_default:
  assumes "date_add today 14 = Inr end_date"
  shows "build_prompt loc i default_timeframe_days today =
           Inr (prompt_text loc i 14 (strftime today @ '' and '' @ strftime end_date))"
  using assms by (simp add: build_prompt_def default_timeframe_days_def timedelta_def)

lemma build_prompt_april_first:
  "build_prompt loc i 14 april_first =
     Inr (prompt_text loc i 14 ''April 01, 2025 and April 15, 2025'')"
  by (simp add: build_prompt_def timedelta_def april_first_plus_14 strftime_april_first
        strftime_april_15)

lemma build_prompt_too_far:
  "build_prompt loc i 4000000 april_first = Inl (Exn OverflowError ''date value out of range'')"
  by (simp add: build_prompt_def timedelta_def date_add_def april_first_ordinal MAXORDINAL_def)

lemma build_prompt_april_first_999:
  "build_prompt loc i 14 april_first_999 =
     Inr (prompt_text loc i 14 ''April 01, 999 and April 15, 999'')"
  by (simp add: build_prompt_def timedelta_def date_add_def april_first_999_ordinal
        MAXORDINAL_def fromordinal_364617 strftime_april_first_999 strftime_april_15_999)

lemma no_four_digit_year_999:
  "\<not> sublist ''April 01, 0999''
       (prompt_text ''Blaine, MN'' ''live jazz'' 14 ''April 01, 999 and April 15, 999'')"
  by code_simp

lemma example_prompt_built:
  "build_prompt (location example_request) (interest_description example_request)
     default_timeframe_days (system_date example_world) = Inr example_prompt"
  by (simp add: example_request_def example_world_def example_prompt_def
        default_timeframe_days_def build_prompt_april_first)

lemma raising_text_prompt:
  "raising_text_model example_prompt =
     Returns \<lparr>parts = [], prompt_feedback_block_reason = None,
              text_attr = TextRaises (Exn OtherException ''no valid part'')\<rparr>"
  by (simp add: raising_text_model_def)

section \<open>The search and the handler\<close>

lemma search_sends_prompt:
  assumes "build_prompt loc i n (system_date w) = Inr p"
  shows "find_local_events_via_search m loc i n w =
           (case m p of Raises e \<Rightarrow> Inl e | Returns r \<Rightarrow> handle_response r,
            w\<lparr>sent_prompts := sent_prompts w @ [p]\<rparr>)"
  by (simp add: find_local_events_via_search_def assms generate_content_def split: gen_outcome.split)

lemma search_world:
  "snd (find_local_events_via_search m loc i n w) =
     (case build_prompt loc i n (system_date w) of
        Inl e \<Rightarrow> w
      | Inr p \<Rightarrow> w\<lparr>sent_prompts := sent_prompts w @ [p]\<rparr>)"
  by (simp add: find_local_events_via_search_def generate_content_def
        split: sum.split gen_outcome.split)

lemma handler_on_failure:
  assumes "find_local_events_via_search m (location req) (interest_description req)
             default_timeframe_days w = (Inl e, w')"
  shows "find_events_api (Some m) req w =
           (Inr \<lparr>results_text = [], error = Some (''Failed to find events: '' @ exn_str e)\<rparr>, w')"
  by (simp add: find_events_api_def assms)

lemma handler_on_success:
  assumes "find_local_events_via_search m (location req) (interest_description req)
             default_timeframe_days w = (Inr t, w')"
  shows "find_events_api (Some m) req w = (Inr \<lparr>results_text = t, error = None\<rparr>, w')"
  by (simp add: find_events_api_def assms)

lemma handler_world:
  "snd (find_events_api (Some m) req w) =
     snd (find_local_events_via_search m (location req) (interest_description req) 14 w)"
  by (simp add: find_events_api_def default_timeframe_days_def split: prod.split sum.split)

lemma handler_never_raises: "\<exists>r. fst (find_events_api gm req w) = Inr r"
  by (auto simp: find_events_api_def split: option.splits prod.splits sum.splits)

section \<open>The claims\<close>

text \<open>
  Claim C1. With a model client available, when the call to the model service raises an
  exception, the handler returns a result whose \<^verbatim>\<open>results_text\<close> is empty and whose
  \<^verbatim>\<open>error\<close> contains the exception's message; the exception does not leave the handler.
  The call is the one made with the prompt built for the request.
\<close>

theorem external_exception_is_caught:
  assumes "build_prompt (location req) (interest_description req) default_timeframe_days
             (system_date w) = Inr p"
      and "m p = Raises e"
  shows "find_events_api (Some m) req w =
           (Inr \<lparr>results_text = [], error = Some (''Failed to find events: '' @ exn_str e)\<rparr>,
            w\<lparr>sent_prompts := sent_prompts w @ [p]\<rparr>)
         \<and> sublist (exn_str e) (''Failed to find events: '' @ exn_str e)"
proof -
  have "find_local_events_via_search m (location req) (interest_description req)
          default_timeframe_days w = (Inl e, w\<lparr>sent_prompts := sent_prompts w @ [p]\<rparr>)"
    by (simp add: search_sends_prompt[OF assms(1)] assms(2))
  then have "find_events_api (Some m) req w =
           (Inr \<lparr>results_text = [], error = Some (''Failed to find events: '' @ exn_str e)\<rparr>,
            w\<lparr>sent_prompts := sent_prompts w @ [p]\<rparr>)"
    by (rule handler_on_failure)
  moreover have "sublist (exn_str e) (''Failed to find events: '' @ exn_str e)"
    by (rule sublist_append_leftI)
  ultimately show ?thesis
    by (rule conjI)
qed

theorem external_exception_is_caught_witness:
  "find_events_api (Some quota_model) example_request example_world =
     (Inr \<lparr>results_text = [], error = Some ''Failed to find events: quota exceeded''\<rparr>,
      \<lparr>system_date = april_first, sent_prompts = [example_prompt]\<rparr>)"
proof -
  have call: "quota_model example_prompt = Raises (Exn OtherException ''quota exceeded'')"
    by (simp add: quota_model_def)
  show ?thesis
    using external_exception_is_caught[where m = quota_model, OF example_prompt_built call]
    by (simp add: example_world_def)
qed

text \<open>
  Claim C2. When the model client is \<^verbatim>\<open>None\<close>, the handler returns a result whose
  \<^verbatim>\<open>results_text\<close> is empty and whose \<^verbatim>\<open>error\<close> is the fixed message beginning ``AI model
  is not available'', and nothing is sent to the model service: the world is unchanged.
\<close>

theorem no_client_no_call:
  "find_events_api None req w =
     (Inr \<lparr>results_text = [],
           error = Some ''AI model is not available. Please check server logs or try again later.''\<rparr>,
      w)
   \<and> prefix ''AI model is not available''
        ''AI model is not available. Please check server logs or try again later.''"
  by (simp add: find_events_api_def)

text \<open>
  Claim C3, as amended. For a current date and a positive number of days whose sum is a
  date not after 9999-12-31, a prompt is built, its end date is the current date plus
  that number of calendar days, and it contains the interest, the location and both
  dates as \<^verbatim>\<open>strftime\<close> renders them; each of the two dates whose year is 1000 or
  later is rendered as ``Month DD, YYYY''.
\<close>

theorem prompt_contains_inputs_and_dates:
  assumes "valid_date today"
      and "0 < n"
      and "toordinal today + n \<le> MAXORDINAL"
  shows "\<exists>end_date p.
           date_add today n = Inr end_date \<and> valid_date end_date \<and>
           toordinal end_date = toordinal today + n \<and>
           build_prompt loc interest n today = Inr p \<and>
           sublist interest p \<and> sublist loc p \<and>
           sublist (strftime today) p \<and> sublist (strftime end_date) p \<and>
           (if 1000 \<le> year today then strftime today = month_dd_yyyy today else True) \<and>
           (if 1000 \<le> year end_date then strftime end_date = month_dd_yyyy end_date else True)"
proof -
  define end_date where "end_date = fromordinal (toordinal today + n)"
  define dr where "dr = strftime today @ '' and '' @ strftime end_date"
  define p where "p = prompt_text loc interest n dr"
  have pos: "1 \<le> toordinal today"
    using assms(1) by (rule toordinal_pos)
  have rng: "1 \<le> toordinal today + n"
    using pos assms(2) by simp
  have add: "date_add today n = Inr end_date"
    unfolding end_date_def using rng assms(3) by (intro date_add_in_range) auto
  have val: "valid_date end_date" and ord: "toordinal end_date = toordinal today + n"
    unfolding end_date_def using rng assms(3) by (rule fromordinal_correct)+
  have bp: "build_prompt loc interest n today = Inr p"
    unfolding p_def dr_def end_date_def using assms by (rule build_prompt_in_range)
  have drp: "sublist dr p"
    unfolding p_def by (rule prompt_text_date_range)
  have "sublist (strftime today) dr"
    unfolding dr_def by (rule sublist_left)
  then have s1: "sublist (strftime today) p"
    using drp by (rule sublist_trans)
  have "sublist (strftime end_date) dr"
    unfolding dr_def by (rule sublist_right2)
  then have s2: "sublist (strftime end_date) p"
    using drp by (rule sublist_trans)
  have si: "sublist interest p" and sl: "sublist loc p"
    unfolding p_def by (rule prompt_text_interest, rule prompt_text_location)
  have sty1: "strftime today = month_dd_yyyy today" if "1000 \<le> year today"
    using assms(1) that by (rule strftime_style)
  have sty2: "strftime end_date = month_dd_yyyy end_date" if "1000 \<le> year end_date"
    using val that by (rule strftime_style)
  show ?thesis
    using add val ord bp si sl s1 s2 sty1 sty2 by auto
qed

theorem prompt_contains_inputs_and_dates_witness:
  "\<exists>end_date p.
     date_add april_first 14 = Inr end_date \<and> valid_date end_date \<and>
     toordinal end_date = toordinal april_first + 14 \<and>
     build_prompt ''Blaine, MN'' ''live jazz'' 14 april_first = Inr p \<and>
     sublist ''live jazz'' p \<and> sublist ''Blaine, MN'' p \<and>
     sublist (strftime april_first) p \<and> sublist (strftime end_date) p \<and>
     (if 1000 \<le> year april_first then strftime april_first = month_dd_yyyy april_first else True) \<and>
     (if 1000 \<le> year end_date then strftime end_date = month_dd_yyyy end_date else True)"
proof -
  have "valid_date april_first"
    by (rule april_first_valid)
  moreover have "(0::int) < 14"
    by simp
  moreover have "toordinal april_first + 14 \<le> MAXORDINAL"
    by (simp add: april_first_ordinal MAXORDINAL_def)
  ultimately show ?thesis
    by (rule prompt_contains_inputs_and_dates)
qed

text \<open>
  The claim without the two limits fails. Four million days after the first of April
  2025 there is no date, and no prompt is built. On the first of April 999 the prompt is
  built with the year in three digits, and ``April 01, 0999'' does not occur in it.
\<close>

theorem prompt_missing_or_year_unpadded:
  "valid_date april_first \<and> (0::int) < 4000000 \<and>
   build_prompt ''Blaine, MN'' ''live jazz'' 4000000 april_first =
     Inl (Exn OverflowError ''date value out of range'') \<and>
   valid_date april_first_999 \<and> (0::int) < 14 \<and>
   build_prompt ''Blaine, MN'' ''live jazz'' 14 april_first_999 =
     Inr (prompt_text ''Blaine, MN'' ''live jazz'' 14 ''April 01, 999 and April 15, 999'') \<and>
   strftime april_first_999 = ''April 01, 999'' \<and>
   month_dd_yyyy april_first_999 = ''April 01, 0999'' \<and>
   \<not> sublist ''April 01, 0999''
       (prompt_text ''Blaine, MN'' ''live jazz'' 14 ''April 01, 999 and April 15, 999'')"
  using april_first_valid build_prompt_too_far[of "''Blaine, MN''" "''live jazz''"]
    april_first_999_valid build_prompt_april_first_999[of "''Blaine, MN''" "''live jazz''"]
    strftime_april_first_999 month_dd_yyyy_april_first_999 no_four_digit_year_999
  by simp

text \<open>
  Claim C4. With 14 days and the current date 2025-04-01 the end date is rendered as
  ``April 15, 2025'', and both ``April 01, 2025'' and ``April 15, 2025'' occur in the
  prompt, whatever the location and the interest.
\<close>

theorem april_example:
  "date_add april_first 14 = Inr \<lparr>year = 2025, month = 4, day = 15\<rparr> \<and>
   strftime april_first = ''April 01, 2025'' \<and>
   strftime \<lparr>year = 2025, month = 4, day = 15\<rparr> = ''April 15, 2025'' \<and>
   build_prompt loc interest 14 april_first =
     Inr (prompt_text loc interest 14 ''April 01, 2025 and April 15, 2025'') \<and>
   sublist ''April 01, 2025'' (prompt_text loc interest 14 ''April 01, 2025 and April 15, 2025'') \<and>
   sublist ''April 15, 2025'' (prompt_text loc interest 14 ''April 01, 2025 and April 15, 2025'')"
proof -
  let ?dr = "''April 01, 2025 and April 15, 2025''"
  have dr: "sublist ?dr (prompt_text loc interest 14 ?dr)"
    by (rule prompt_text_date_range)
  have "sublist ''April 01, 2025'' (''April 01, 2025'' @ '' and April 15, 2025'')"
    by (rule sublist_left)
  then have "sublist ''April 01, 2025'' ?dr"
    by simp
  then have s1: "sublist ''April 01, 2025'' (prompt_text loc interest 14 ?dr)"
    using dr by (rule sublist_trans)
  have "sublist ''April 15, 2025'' (''April 01, 2025 and '' @ ''April 15, 2025'')"
    by (rule sublist_append_leftI)
  then have "sublist ''April 15, 2025'' ?dr"
    by simp
  then have s2: "sublist ''April 15, 2025'' (prompt_text loc interest 14 ?dr)"
    using dr by (rule sublist_trans)
  show ?thesis
    using s1 s2 april_first_plus_14 strftime_april_first strftime_april_15
      build_prompt_april_first[of loc interest]
    by (intro conjI)
qed

text \<open>
  Claim C5. When the model service returns a response with empty parts and a block reason
  that counts as true, the handler returns a result whose \<^verbatim>\<open>results_text\<close> is empty and
  whose \<^verbatim>\<open>error\<close> contains the name of the block reason.
\<close>

theorem blocked_response_names_reason:
  assumes "build_prompt (location req) (interest_description req) default_timeframe_days
             (system_date w) = Inr p"
      and "m p = Returns r"
      and "parts r = []"
      and "prompt_feedback_block_reason r = Some br"
      and "reason_value br \<noteq> 0"
  shows "fst (find_events_api (Some m) req w) =
           Inr \<lparr>results_text = [],
                error = Some (''Failed to find events: Content generation blocked. Reason: '' @
                              reason_name br)\<rparr>
         \<and> sublist (reason_name br)
              (''Failed to find events: Content generation blocked. Reason: '' @ reason_name br)"
proof -
  have "handle_response r =
          Inl (Exn PlainException (''Content generation blocked. Reason: '' @ reason_name br))"
    using assms(3-5) by (simp add: handle_response_def)
  then have "find_local_events_via_search m (location req) (interest_description req)
          default_timeframe_days w =
            (Inl (Exn PlainException (''Content generation blocked. Reason: '' @ reason_name br)),
             w\<lparr>sent_prompts := sent_prompts w @ [p]\<rparr>)"
    by (simp add: search_sends_prompt[OF assms(1)] assms(2))
  then have "find_events_api (Some m) req w =
           (Inr \<lparr>results_text = [],
                 error = Some (''Failed to find events: '' @
                   exn_str (Exn PlainException
                     (''Content generation blocked. Reason: '' @ reason_name br)))\<rparr>,
            w\<lparr>sent_prompts := sent_prompts w @ [p]\<rparr>)"
    by (rule handler_on_failure)
  then have "fst (find_events_api (Some m) req w) =
           Inr \<lparr>results_text = [],
                error = Some (''Failed to find events: Content generation blocked. Reason: '' @
                              reason_name br)\<rparr>"
    by simp
  moreover have "sublist (reason_name br)
      (''Failed to find events: Content generation blocked. Reason: '' @ reason_name br)"
    by (rule sublist_append_leftI)
  ultimately show ?thesis
    by (rule conjI)
qed

theorem blocked_response_names_reason_witness:
  "fst (find_events_api (Some blocked_model) example_request example_world) =
     Inr \<lparr>results_text = [],
          error = Some ''Failed to find events: Content generation blocked. Reason: SAFETY''\<rparr>"
proof -
  let ?br = "\<lparr>reason_value = 1, reason_name = ''SAFETY''\<rparr>"
  let ?r = "\<lparr>parts = [], prompt_feedback_block_reason = Some ?br,
             text_attr = TextRaises (Exn OtherException ''no valid part'')\<rparr>"
  have call: "blocked_model example_prompt = Returns ?r"
    by (simp add: blocked_model_def)
  have "parts ?r = []" "prompt_feedback_block_reason ?r = Some ?br" "reason_value ?br \<noteq> 0"
    by simp_all
  from blocked_response_names_reason[where m = blocked_model, OF example_prompt_built call this]
  show ?thesis
    by simp
qed

text \<open>
  Claim C6. When the model service returns a response with empty parts, no block reason
  and a non-empty text, the handler returns that text as \<^verbatim>\<open>results_text\<close> and no error.
\<close>

theorem fallback_text_is_returned:
  assumes "build_prompt (location req) (interest_description req) default_timeframe_days
             (system_date w) = Inr p"
      and "m p = Returns r"
      and "parts r = []"
      and "no_block_reason r"
      and "text_attr r = Text t"
      and "t \<noteq> []"
  shows "fst (find_events_api (Some m) req w) = Inr \<lparr>results_text = t, error = None\<rparr>"
proof -
  have "text_fallback r = Inr t"
    using assms(5,6) by (simp add: text_fallback_def hasattr_text_def get_text_def)
  then have "handle_response r = Inr t"
    using assms(3,4) by (auto simp: handle_response_def no_block_reason_def split: option.splits)
  then have "find_local_events_via_search m (location req) (interest_description req)
          default_timeframe_days w = (Inr t, w\<lparr>sent_prompts := sent_prompts w @ [p]\<rparr>)"
    by (simp add: search_sends_prompt[OF assms(1)] assms(2))
  then show ?thesis
    by (simp add: handler_on_success)
qed

theorem fallback_text_is_returned_witness:
  "fst (find_events_api (Some fallback_model) example_request example_world) =
     Inr \<lparr>results_text = ''Found 2 events...'', error = None\<rparr>"
proof -
  let ?r = "\<lparr>parts = [],
             prompt_feedback_block_reason =
               Some \<lparr>reason_value = 0, reason_name = ''BLOCK_REASON_UNSPECIFIED''\<rparr>,
             text_attr = Text ''Found 2 events...''\<rparr>"
  have call: "fallback_model example_prompt = Returns ?r"
    by (simp add: fallback_model_def)
  have "parts ?r = []" "no_block_reason ?r" "text_attr ?r = Text ''Found 2 events...''"
    "''Found 2 events...'' \<noteq> []"
    by (simp_all add: no_block_reason_def)
  from fallback_text_is_returned[where m = fallback_model, OF example_prompt_built call this]
  show ?thesis .
qed

text \<open>
  Claim C7, as amended. When the model service returns a response with empty parts, no
  block reason and a text that is missing or empty, the handler returns a result whose
  \<^verbatim>\<open>results_text\<close> is empty and whose \<^verbatim>\<open>error\<close> is the empty-response message.
\<close>

theorem empty_response_is_generic_failure:
  assumes "build_prompt (location req) (interest_description req) default_timeframe_days
             (system_date w) = Inr p"
      and "m p = Returns r"
      and "parts r = []"
      and "no_block_reason r"
      and "text_missing_or_empty r"
  shows "fst (find_events_api (Some m) req w) =
           Inr \<lparr>results_text = [],
                error = Some ''Failed to find events: Content generation failed. Received an empty response.''\<rparr>"
proof -
  have "text_fallback r = Inl empty_response"
    using assms(5)
    by (auto simp: text_fallback_def hasattr_text_def get_text_def text_missing_or_empty_def
          split: text_attr.splits)
  then have "handle_response r = Inl empty_response"
    using assms(3,4) by (auto simp: handle_response_def no_block_reason_def split: option.splits)
  then have "find_local_events_via_search m (location req) (interest_description req)
          default_timeframe_days w = (Inl empty_response, w\<lparr>sent_prompts := sent_prompts w @ [p]\<rparr>)"
    by (simp add: search_sends_prompt[OF assms(1)] assms(2))
  then show ?thesis
    by (simp add: handler_on_failure empty_response_def)
qed

theorem empty_response_is_generic_failure_witness:
  "fst (find_events_api (Some empty_model) example_request example_world) =
     Inr \<lparr>results_text = [],
          error = Some ''Failed to find events: Content generation failed. Received an empty response.''\<rparr>"
proof -
  let ?r = "\<lparr>parts = [], prompt_feedback_block_reason = None,
             text_attr = TextRaises (Exn AttributeError ''no attribute text'')\<rparr>"
  have call: "empty_model example_prompt = Returns ?r"
    by (simp add: empty_model_def)
  have "parts ?r = []" "no_block_reason ?r" "text_missing_or_empty ?r"
    by (simp_all add: no_block_reason_def text_missing_or_empty_def)
  from empty_response_is_generic_failure[where m = empty_model, OF example_prompt_built call this]
  show ?thesis .
qed

text \<open>
  A response with empty parts and no block reason whose text cannot be read because the
  accessor raises another exception has no usable text either, yet the error is that
  exception's message, not the empty-response message.
\<close>

theorem raising_text_is_not_generic:
  "fst (find_events_api (Some raising_text_model) example_request example_world) =
     Inr \<lparr>results_text = [], error = Some ''Failed to find events: no valid part''\<rparr> \<and>
   ''Failed to find events: no valid part'' \<noteq>
     ''Failed to find events: Content generation failed. Received an empty response.''"
proof -
  have "handle_response \<lparr>parts = [], prompt_feedback_block_reason = None,
      text_attr = TextRaises (Exn OtherException ''no valid part'')\<rparr> =
      Inl (Exn OtherException ''no valid part'')"
    by (simp add: handle_response_def text_fallback_def hasattr_text_def)
  then have "find_local_events_via_search raising_text_model (location example_request)
      (interest_description example_request) default_timeframe_days example_world =
      (Inl (Exn OtherException ''no valid part''),
       example_world\<lparr>sent_prompts := sent_prompts example_world @ [example_prompt]\<rparr>)"
    by (simp add: search_sends_prompt[OF example_prompt_built] raising_text_prompt)
  then have "find_events_api (Some raising_text_model) example_request example_world =
      (Inr \<lparr>results_text = [],
            error = Some (''Failed to find events: '' @ exn_str (Exn OtherException ''no valid part''))\<rparr>,
       example_world\<lparr>sent_prompts := sent_prompts example_world @ [example_prompt]\<rparr>)"
    by (rule handler_on_failure)
  then show ?thesis
    by simp
qed

text \<open>
  Claim C9, as amended. The prompt embeds the interest three times: it is a text with
  three holes for the interest, the same text for every interest. The holes are in the
  line of the user's interest, in the filter criterion and in the sentence for no
  results, which is completed by the interest, the location and the number of days.
\<close>

theorem interest_embedded_three_times:
  assumes "build_prompt loc i n today = Inr p"
  shows "(\<exists>A B C D. \<forall>j. build_prompt loc j n today = Inr (A @ j @ B @ j @ C @ j @ D)) \<and>
         3 \<le> occurrences i p \<and>
         sublist (''    **User's Interest:** Find events related to '' @ [CHR 0x22] @ i @ [CHR 0x22]) p \<and>
         sublist (''user's interest: '' @ [CHR 0x22] @ i @ [CHR 0x22]) p \<and>
         sublist (''No specific events matching '' @ [CHR 0x27] @ i @ [CHR 0x27] @
                  '' were found in '' @ loc @ '' for the next '' @ str_int n @ '' days.'') p"
proof -
  obtain dr where p: "p = prompt_text loc i n dr"
    using build_prompt_text[OF assms] by blast
  show ?thesis
    unfolding p
    using build_prompt_slots[OF assms] prompt_text_occurrences prompt_text_interest_line
      prompt_text_filter_line prompt_text_fallback
    by (intro conjI)
qed

theorem interest_embedded_three_times_witness:
  "(\<exists>A B C D. \<forall>j. build_prompt ''Blaine, MN'' j 14 april_first = Inr (A @ j @ B @ j @ C @ j @ D)) \<and>
   3 \<le> occurrences ''live jazz'' (prompt_text ''Blaine, MN'' ''live jazz'' 14 ''April 01, 2025 and April 15, 2025'') \<and>
   sublist (''    **User's Interest:** Find events related to '' @ [CHR 0x22] @ ''live jazz'' @ [CHR 0x22])
     (prompt_text ''Blaine, MN'' ''live jazz'' 14 ''April 01, 2025 and April 15, 2025'') \<and>
   sublist (''user's interest: '' @ [CHR 0x22] @ ''live jazz'' @ [CHR 0x22])
     (prompt_text ''Blaine, MN'' ''live jazz'' 14 ''April 01, 2025 and April 15, 2025'') \<and>
   sublist (''No specific events matching '' @ [CHR 0x27] @ ''live jazz'' @ [CHR 0x27] @
            '' were found in '' @ ''Blaine, MN'' @ '' for the next '' @ str_int 14 @ '' days.'')
     (prompt_text ''Blaine, MN'' ''live jazz'' 14 ''April 01, 2025 and April 15, 2025'')"
  by (rule interest_embedded_three_times) (rule build_prompt_april_first)

text \<open>
  The interest ``live jazz'', which occurs neither in the fixed text nor in the location
  ``Blaine, MN'', occurs three times in the prompt, not twice.
\<close>

theorem interest_not_embedded_twice:
  "build_prompt ''Blaine, MN'' ''live jazz'' 14 april_first =
     Inr (prompt_text ''Blaine, MN'' ''live jazz'' 14 ''April 01, 2025 and April 15, 2025'') \<and>
   occurrences ''live jazz''
     (prompt_text ''Blaine, MN'' ''live jazz'' 14 ''April 01, 2025 and April 15, 2025'') = 3"
proof -
  have "occurrences ''live jazz''
     (prompt_text ''Blaine, MN'' ''live jazz'' 14 ''April 01, 2025 and April 15, 2025'') = 3"
    by code_simp
  then show ?thesis
    using build_prompt_april_first[of "''Blaine, MN''" "''live jazz''"] by (rule conjI[rotated])
qed

text \<open>
  Claim C10. The handler runs the search with 14 days whatever the request: the world
  after the handler is the world after the search with 14 days, the prompt it sends names
  a window from the current date to the date 14 calendar days later, and says so in its
  last instruction.
\<close>

theorem handler_window_is_14_days:
  assumes "date_add (system_date w) 14 = Inr end_date"
  shows "toordinal end_date = toordinal (system_date w) + 14 \<and>
         snd (find_events_api (Some m) req w) =
           snd (find_local_events_via_search m (location req) (interest_description req) 14 w) \<and>
         sent_prompts (snd (find_events_api (Some m) req w)) =
           sent_prompts w @
             [prompt_text (location req) (interest_description req) 14
                (strftime (system_date w) @ '' and '' @ strftime end_date)] \<and>
         sublist ('' for the next '' @ str_int 14 @ '' days.'')
           (prompt_text (location req) (interest_description req) 14
              (strftime (system_date w) @ '' and '' @ strftime end_date))"
proof -
  let ?p = "prompt_text (location req) (interest_description req) 14
              (strftime (system_date w) @ '' and '' @ strftime end_date)"
  have bp: "build_prompt (location req) (interest_description req) 14 (system_date w) = Inr ?p"
    using build_prompt_default[OF assms] by (simp add: default_timeframe_days_def)
  have "sent_prompts (snd (find_events_api (Some m) req w)) = sent_prompts w @ [?p]"
    by (simp add: handler_world search_world bp)
  moreover have "sublist ('' for the next '' @ str_int 14 @ '' days.'') ?p"
    by (rule prompt_text_window)
  ultimately show ?thesis
    using date_add_ordinal(1)[OF assms] handler_world by (intro conjI)
qed

theorem handler_window_is_14_days_witness:
  "toordinal \<lparr>year = 2025, month = 4, day = 15\<rparr> = toordinal april_first + 14 \<and>
   sent_prompts (snd (find_events_api (Some quota_model) example_request example_world)) =
     [example_prompt]"
proof -
  have "date_add (system_date example_world) 14 = Inr \<lparr>year = 2025, month = 4, day = 15\<rparr>"
    by (simp add: example_world_def april_first_plus_14)
  note window = handler_window_is_14_days[OF this, of quota_model example_request]
  have "toordinal \<lparr>year = 2025, month = 4, day = 15\<rparr> = toordinal april_first + 14"
    using window[THEN conjunct1] by (simp add: example_world_def)
  moreover have "sent_prompts (snd (find_events_api (Some quota_model) example_request
      example_world)) = [example_prompt]"
    using window[THEN conjunct2, THEN conjunct2, THEN conjunct1]
    by (simp add: example_world_def example_request_def example_prompt_def
          strftime_april_first strftime_april_15)
  ultimately show ?thesis
    by (rule conjI)
qed

end
